theory Spec2Isabelle
  imports Complex_Main
begin

section \<open>JavaScript values used by the desktop shell\<close>

text \<open>
  A JavaScript \<open>number\<close> is NaN, one of the two infinities, or a finite value. A
  finite value is modelled as a real and finite arithmetic is exact: the rounding and
  the overflow of doubles are not modelled, and the model has one zero. What is proved
  below does not rest on rounding: \<open>Math.max\<close> and \<open>Math.min\<close> are exact on
  doubles, 0 / 10 and 100 / 10 are exact, and the quotient by 10 of a value between 0
  and 100 lies between 0 and 10 however it is rounded.
\<close>

datatype jsnum = NaN | NegInf | Fin real | PosInf

datatype js_error = RangeError | SyntaxError | TypeError | NoHandler | FsError string

text \<open>\<open>Math.min\<close> and \<open>Math.max\<close> of two arguments: NaN if either argument is NaN.\<close>

fun js_min :: "jsnum \<Rightarrow> jsnum \<Rightarrow> jsnum" where
  "js_min NaN y = NaN"
| "js_min x NaN = NaN"
| "js_min NegInf y = NegInf"
| "js_min x NegInf = NegInf"
| "js_min PosInf y = y"
| "js_min x PosInf = x"
| "js_min (Fin a) (Fin b) = Fin (min a b)"

fun js_max :: "jsnum \<Rightarrow> jsnum \<Rightarrow> jsnum" where
  "js_max NaN y = NaN"
| "js_max x NaN = NaN"
| "js_max PosInf y = PosInf"
| "js_max x PosInf = PosInf"
| "js_max NegInf y = y"
| "js_max x NegInf = x"
| "js_max (Fin a) (Fin b) = Fin (max a b)"

text \<open>Subtraction, multiplication and division, with the IEEE rules for NaN and infinities.\<close>

fun js_sub :: "jsnum \<Rightarrow> jsnum \<Rightarrow> jsnum" where
  "js_sub NaN y = NaN"
| "js_sub x NaN = NaN"
| "js_sub PosInf PosInf = NaN"
| "js_sub NegInf NegInf = NaN"
| "js_sub PosInf y = PosInf"
| "js_sub NegInf y = NegInf"
| "js_sub x PosInf = NegInf"
| "js_sub x NegInf = PosInf"
| "js_sub (Fin a) (Fin b) = Fin (a - b)"

definition inf_of_sign :: "real \<Rightarrow> jsnum" where
  "inf_of_sign s = (if s = 0 then NaN else if 0 < s then PosInf else NegInf)"

fun js_mul :: "jsnum \<Rightarrow> jsnum \<Rightarrow> jsnum" where
  "js_mul NaN y = NaN"
| "js_mul x NaN = NaN"
| "js_mul (Fin a) (Fin b) = Fin (a * b)"
| "js_mul (Fin a) PosInf = inf_of_sign a"
| "js_mul (Fin a) NegInf = inf_of_sign (- a)"
| "js_mul PosInf (Fin b) = inf_of_sign b"
| "js_mul NegInf (Fin b) = inf_of_sign (- b)"
| "js_mul PosInf PosInf = PosInf"
| "js_mul NegInf NegInf = PosInf"
| "js_mul PosInf NegInf = NegInf"
| "js_mul NegInf PosInf = NegInf"

text \<open>A zero divisor is taken as \<open>+0\<close>; every divisor in the sources is a positive number.\<close>

fun js_div :: "jsnum \<Rightarrow> jsnum \<Rightarrow> jsnum" where
  "js_div NaN y = NaN"
| "js_div x NaN = NaN"
| "js_div (Fin a) (Fin b) = (if b = 0 then inf_of_sign a else Fin (a / b))"
| "js_div (Fin a) PosInf = Fin 0"
| "js_div (Fin a) NegInf = Fin 0"
| "js_div PosInf (Fin b) = (if 0 \<le> b then PosInf else NegInf)"
| "js_div NegInf (Fin b) = (if 0 \<le> b then NegInf else PosInf)"
| "js_div PosInf y = NaN"
| "js_div NegInf y = NaN"

text \<open>\<open>Math.round\<close>: the nearest integer, a tie going up.\<close>

fun js_round :: "jsnum \<Rightarrow> jsnum" where
  "js_round (Fin a) = Fin (of_int \<lfloor>a + 1 / 2\<rfloor>)"
| "js_round x = x"

text \<open>
  \<open>String.prototype.repeat(count)\<close>: the count goes through ToIntegerOrInfinity (NaN
  becomes 0, a finite value is truncated towards zero); a negative or infinite count
  throws a RangeError.
\<close>

datatype int_or_inf = MinusInfinity | Integer int | PlusInfinity

fun to_integer_or_infinity :: "jsnum \<Rightarrow> int_or_inf" where
  "to_integer_or_infinity NaN = Integer 0"
| "to_integer_or_infinity PosInf = PlusInfinity"
| "to_integer_or_infinity NegInf = MinusInfinity"
| "to_integer_or_infinity (Fin a) = Integer (if 0 \<le> a then \<lfloor>a\<rfloor> else \<lceil>a\<rceil>)"

definition js_repeat :: "string \<Rightarrow> jsnum \<Rightarrow> js_error + string" where
  "js_repeat s count =
     (case to_integer_or_infinity count of
        MinusInfinity \<Rightarrow> Inl RangeError
      | PlusInfinity \<Rightarrow> Inl RangeError
      | Integer n \<Rightarrow> if n < 0 then Inl RangeError else Inr (concat (replicate (nat n) s)))"

section \<open>Battery bar (\<open>App.tsx\<close>)\<close>

definition batteryBar :: "jsnum \<Rightarrow> js_error + string" where
  "batteryBar level =
     (let clamped = js_max (Fin 0) (js_min (Fin 100) level);
          filled = js_round (js_div clamped (Fin 10))
      in case js_repeat ''#'' filled of
           Inl e \<Rightarrow> Inl e
         | Inr hashes \<Rightarrow>
             (case js_repeat ''.'' (js_sub (Fin 10) filled) of
                Inl e \<Rightarrow> Inl e
              | Inr dots \<Rightarrow> Inr (''['' @ hashes @ dots @ '']'')))"

section \<open>ASCII font fitting (\<open>App.tsx\<close>)\<close>

text \<open>\<open>String.prototype.split(sep)\<close> for a one-character separator: never an empty list.\<close>

fun js_split :: "'a \<Rightarrow> 'a list \<Rightarrow> 'a list list" where
  "js_split sep [] = [] # []"
| "js_split sep (c # cs) =
     (if c = sep then [] # js_split sep cs
      else (case js_split sep cs of
              [] \<Rightarrow> [c] # []
            | l # ls \<Rightarrow> (c # l) # ls))"

text \<open>
  The body of the \<open>asciiFontSizePx\<close> memo. Its inputs are the loaded art, the two
  measured dimensions of the device section, and \<open>headerRef.current?.offsetHeight\<close>
  (an integer when the header is mounted, otherwise undefined and replaced by 35).
\<close>

definition asciiFontSizePx :: "string \<Rightarrow> jsnum \<Rightarrow> jsnum \<Rightarrow> int option \<Rightarrow> jsnum" where
  "asciiFontSizePx ascii deviceSectionWidth deviceSectionHeight offsetHeight =
     (let lines = js_split (CHR 0x0A) ascii;
          longestLine = foldl (\<lambda>m line. js_max m (Fin (real (length line)))) (Fin 1) lines;
          lineCount = Fin (real (length lines));
          usableWidth = js_max (Fin 120) (js_sub deviceSectionWidth (Fin 40));
          widthFitted = js_div usableWidth (js_mul longestLine (Fin (62 / 100)));
          headerH = (case offsetHeight of None \<Rightarrow> Fin 35 | Some h \<Rightarrow> Fin (of_int h));
          usableHeight =
            js_max (Fin 60) (js_sub (js_sub deviceSectionHeight headerH) (Fin 20));
          heightFitted = js_div usableHeight (js_mul lineCount (Fin (95 / 100)))
      in js_max (Fin (45 / 10)) (js_min (Fin 12) (js_min widthFitted heightFitted)))"

section \<open>Battery window (\<open>App.tsx\<close>)\<close>

text \<open>The \<open>properties\<close> part of \<open>BackendData\<close> (\<open>vite-env.d.ts\<close>).\<close>

record battery =
  level :: jsnum
  charging :: bool

text \<open>An optional, nullable field: absent (undefined), null, or holding an object.\<close>

datatype 'a optional = Undefined | Null | Defined 'a

record properties =
  model :: string
  leftBattery :: battery
  rightBattery :: battery
  caseBattery :: "battery optional"
  leftInEar :: bool
  rightInEar :: bool

text \<open>What the battery window shows: label and value rows, or the fallback line.\<close>

datatype element = Row string string | Fallback string

text \<open>
  The row text \<open>`${batteryBar(b.level)} ${b.level}%${b.charging ? " CHG" : ""}`\<close>. The
  conversion of a number to a string is the language's; it is a parameter here.
\<close>

definition battery_text :: "(jsnum \<Rightarrow> string) \<Rightarrow> battery \<Rightarrow> js_error + string" where
  "battery_text num_to_string b =
     (case batteryBar (level b) of
        Inl e \<Rightarrow> Inl e
      | Inr bar \<Rightarrow>
          Inr (bar @ '' '' @ num_to_string (level b) @ ''%''
                 @ (if charging b then '' CHG'' else '''')))"

text \<open>
  The children of the battery window for \<open>props = backendData?.properties\<close> (\<open>None\<close>
  when it is null or undefined). \<open>props.caseBattery && (...)\<close> renders its right operand
  when the field holds an object and nothing when it is null or undefined.
\<close>

definition battery_window ::
  "(jsnum \<Rightarrow> string) \<Rightarrow> properties option \<Rightarrow> js_error + element list" where
  "battery_window num_to_string props =
     (case props of
        None \<Rightarrow> Inr [Fallback ''No battery data available.'']
      | Some p \<Rightarrow>
          (case battery_text num_to_string (leftBattery p) of
             Inl e \<Rightarrow> Inl e
           | Inr left \<Rightarrow>
               (case battery_text num_to_string (rightBattery p) of
                  Inl e \<Rightarrow> Inl e
                | Inr right \<Rightarrow>
                    (case caseBattery p of
                       Defined c \<Rightarrow>
                         (case battery_text num_to_string c of
                            Inl e \<Rightarrow> Inl e
                          | Inr cs \<Rightarrow>
                              Inr [Row ''Left'' left, Row ''Right'' right, Row ''Case'' cs])
                     | _ \<Rightarrow> Inr [Row ''Left'' left, Row ''Right'' right]))))"

section \<open>Electron main process\<close>

text \<open>Values that cross the IPC boundary: the results of \<open>JSON.parse\<close> and handler replies.\<close>

datatype json =
    JNull
  | JBool bool
  | JNumber jsnum
  | JString string
  | JArray "json list"
  | JObject "(string \<times> json) list"

subsection \<open>The backend child process\<close>

text \<open>
  \<open>backendProcess\<close> is the module-level handle. The children spawned so far are kept in
  a list; a child's position is its identity, so \<open>spawn\<close> always returns a fresh one.
  \<open>spawn\<close> returns a handle whether or not the command could be launched: a launch that
  fails (a missing binary) is reported later by an \<open>error\<close> event, for which the source
  attaches no listener, and the handle then stands for no process.
\<close>

datatype child_status = Running | Failed | Killed | Exited

record main_state =
  backendProcess :: "nat option"
  children :: "child_status list"

definition spawn :: "bool \<Rightarrow> main_state \<Rightarrow> nat \<times> main_state" where
  "spawn launches s =
     (length (children s),
      s\<lparr>children := children s @ [if launches then Running else Failed]\<rparr>)"

text \<open>\<open>kill()\<close> signals a child that is still running; its failure is swallowed.\<close>

definition kill :: "nat \<Rightarrow> main_state \<Rightarrow> main_state" where
  "kill p s =
     (if p < length (children s) \<and> children s ! p = Running
      then s\<lparr>children := (children s)[p := Killed]\<rparr> else s)"

definition startBackend :: "bool \<Rightarrow> main_state \<Rightarrow> main_state" where
  "startBackend launches s =
     (if backendProcess s \<noteq> None then s
      else (let (p, s') = spawn launches s in s'\<lparr>backendProcess := Some p\<rparr>))"

definition stopBackend :: "main_state \<Rightarrow> main_state" where
  "stopBackend s =
     (case backendProcess s of
        None \<Rightarrow> s
      | Some p \<Rightarrow> (kill p s)\<lparr>backendProcess := None\<rparr>)"

text \<open>
  The \<open>exit\<close> listener that \<open>startBackend\<close> attaches to the child it spawns, run when
  child \<open>p\<close> exits. It clears the handle without looking at which child the handle holds.
\<close>

definition on_exit :: "nat \<Rightarrow> main_state \<Rightarrow> main_state" where
  "on_exit p s = s\<lparr>backendProcess := None, children := (children s)[p := Exited]\<rparr>"

text \<open>The number of children that were launched and were neither killed nor have exited.\<close>

definition running_children :: "main_state \<Rightarrow> nat" where
  "running_children s = length (filter (\<lambda>c. c = Running) (children s))"

subsection \<open>The state file\<close>

type_synonym path = "string list"

datatype node = File string | Unreadable

type_synonym filesystem = "path \<Rightarrow> node option"

definition existsSync :: "filesystem \<Rightarrow> path \<Rightarrow> bool" where
  "existsSync fs p = (fs p \<noteq> None)"

definition readFileSync :: "filesystem \<Rightarrow> path \<Rightarrow> js_error + string" where
  "readFileSync fs p =
     (case fs p of
        None \<Rightarrow> Inl (FsError ''ENOENT'')
      | Some Unreadable \<Rightarrow> Inl (FsError ''EACCES'')
      | Some (File raw) \<Rightarrow> Inr raw)"

definition resolveStatePath :: "path \<Rightarrow> path" where
  "resolveStatePath appData = appData @ [''winpods'', ''state.json'']"

definition try_catch :: "('e + 'a) \<Rightarrow> ('e \<Rightarrow> 'e + 'a) \<Rightarrow> 'e + 'a" where
  "try_catch body handler = (case body of Inl e \<Rightarrow> handler e | Inr v \<Rightarrow> Inr v)"

subsection \<open>IPC handlers\<close>

definition running_reply :: "main_state \<Rightarrow> json" where
  "running_reply s = JObject [(''running'', JBool (backendProcess s \<noteq> None))]"

definition backend_status :: "main_state \<Rightarrow> (js_error + json) \<times> main_state" where
  "backend_status s = (Inr (running_reply s), s)"

definition backend_restart :: "bool \<Rightarrow> main_state \<Rightarrow> (js_error + json) \<times> main_state" where
  "backend_restart launches s =
     (let s' = startBackend launches (stopBackend s) in (Inr (running_reply s'), s'))"

text \<open>
  \<open>JSON.parse\<close> is a parameter: \<open>None\<close> stands for the SyntaxError it throws. A file that
  is absent yields null before the \<open>try\<close>; inside it, every exception yields null.
\<close>

definition backend_data :: "(string \<Rightarrow> json option) \<Rightarrow> path \<Rightarrow> filesystem \<Rightarrow> js_error + json" where
  "backend_data json_parse appData fs =
     (let statePath = resolveStatePath appData
      in if \<not> existsSync fs statePath then Inr JNull
         else try_catch
                (case readFileSync fs statePath of
                   Inl e \<Rightarrow> Inl e
                 | Inr raw \<Rightarrow>
                     (case json_parse raw of
                        None \<Rightarrow> Inl SyntaxError
                      | Some v \<Rightarrow> Inr v))
                (\<lambda>_. Inr JNull))"

text \<open>\<open>ipcMain.handle\<close>: the channels that have a handler, and what invoking one does.\<close>

definition ipc_invoke ::
  "bool \<Rightarrow> (string \<Rightarrow> json option) \<Rightarrow> path \<Rightarrow> filesystem \<Rightarrow> string \<Rightarrow> main_state
     \<Rightarrow> ((js_error + json) \<times> main_state) option" where
  "ipc_invoke launches json_parse appData fs channel s =
     (if channel = ''backend:status'' then Some (backend_status s)
      else if channel = ''backend:restart'' then Some (backend_restart launches s)
      else if channel = ''backend:data'' then Some (backend_data json_parse appData fs, s)
      else None)"

subsection \<open>Preload bridge (\<open>preload.cjs\<close>)\<close>

text \<open>
  \<open>contextBridge.exposeInMainWorld(key, api)\<close> adds one global to the renderer's world.
  An exposed object is the list of its method names, each with the channel it invokes.
\<close>

type_synonym api = "(string \<times> string) list"

definition exposeInMainWorld :: "string \<Rightarrow> api \<Rightarrow> (string \<Rightarrow> api option) \<Rightarrow> (string \<Rightarrow> api option)" where
  "exposeInMainWorld key obj world = world(key \<mapsto> obj)"

definition preload :: "(string \<Rightarrow> api option) \<Rightarrow> (string \<Rightarrow> api option)" where
  "preload world =
     exposeInMainWorld ''backend''
       [(''status'', ''backend:status''),
        (''restart'', ''backend:restart''),
        (''data'', ''backend:data'')] world"

text \<open>
  Calling \<open>window.backend.m()\<close> from the renderer. A name the exposed object has as its
  own method invokes that method's channel. Any other name is looked up on what a plain
  object inherits (\<open>toString\<close>, \<open>hasOwnProperty\<close>, ...): \<open>inherited m\<close> is the outcome
  of calling that member, and \<open>None\<close> when there is no such member, in which case the
  call is a TypeError. Such a call does not reach the main process.
\<close>

definition bridge_call ::
  "(string \<Rightarrow> (js_error + json) option) \<Rightarrow> bool \<Rightarrow> (string \<Rightarrow> json option) \<Rightarrow> path
     \<Rightarrow> filesystem \<Rightarrow> (string \<Rightarrow> api option) \<Rightarrow> string
     \<Rightarrow> main_state \<Rightarrow> (js_error + json) \<times> main_state" where
  "bridge_call inherited launches json_parse appData fs world m s =
     (case world ''backend'' of
        None \<Rightarrow> (Inl TypeError, s)
      | Some obj \<Rightarrow>
          (case map_of obj m of
             None \<Rightarrow>
               (case inherited m of
                  None \<Rightarrow> (Inl TypeError, s)
                | Some r \<Rightarrow> (r, s))
           | Some channel \<Rightarrow>
               (case ipc_invoke launches json_parse appData fs channel s of
                  None \<Rightarrow> (Inl NoHandler, s)
                | Some r \<Rightarrow> r)))"

section \<open>Low-battery alert of the session manager\<close>

text \<open>
  Modelled from the spec: the Session Manager's low-battery policy, which lives in the
  Rust backend and is not among the sources. After each battery update, if the smaller
  of the two bud levels is below the threshold and the flag is clear, the flag is set and
  an alert is emitted; it is not emitted again while the flag stays set; the flag is
  cleared on recovery above the threshold plus a hysteresis margin. The specification
  calls the margin small and gives no value, so it is a parameter. The result is the new
  flag and whether an alert was emitted.
\<close>

definition battery_update :: "int \<Rightarrow> int \<Rightarrow> bool \<Rightarrow> int \<times> int \<Rightarrow> bool \<times> bool" where
  "battery_update lowBatteryThreshold margin lowBatteryAlerted u =
     (let lowest = min (fst u) (snd u)
      in if lowest < lowBatteryThreshold \<and> \<not> lowBatteryAlerted then (True, True)
         else if lowBatteryAlerted \<and> lowBatteryThreshold + margin < lowest then (False, False)
         else (lowBatteryAlerted, False))"

text \<open>Modelled from the spec: the flag and the emissions over a sequence of updates.\<close>

fun session_trace :: "int \<Rightarrow> int \<Rightarrow> bool \<Rightarrow> (int \<times> int) list \<Rightarrow> (bool \<times> bool) list" where
  "session_trace lowBatteryThreshold margin alerted [] = []"
| "session_trace lowBatteryThreshold margin alerted (u # us) =
     (let r = battery_update lowBatteryThreshold margin alerted u
      in r # session_trace lowBatteryThreshold margin (fst r) us)"

section \<open>Properties of the battery bar\<close>

lemma concat_replicate_single: "concat (replicate n [c]) = replicate n c"
  by (induction n) simp_all

lemma js_repeat_char:
  "0 \<le> n \<Longrightarrow> js_repeat [c] (Fin (of_int n)) = Inr (replicate (nat n) c)"
  by (simp add: js_repeat_def concat_replicate_single)

lemma clamp_idem:
  "js_max (Fin 0) (js_min (Fin 100) (js_max (Fin 0) (js_min (Fin 100) lvl)))
     = js_max (Fin 0) (js_min (Fin 100) lvl)"
  by (cases lvl) simp_all

lemma filled_bounds:
  fixes c :: real
  assumes "0 \<le> c" "c \<le> 100"
  shows "0 \<le> \<lfloor>c / 10 + 1 / 2\<rfloor>" "\<lfloor>c / 10 + 1 / 2\<rfloor> \<le> 10"
proof -
  from assms show "0 \<le> \<lfloor>c / 10 + 1 / 2\<rfloor>" by simp
  have "c / 10 + 1 / 2 < 11" using assms by simp
  then have "\<lfloor>c / 10 + 1 / 2\<rfloor> < 11" by (simp add: floor_less_iff)
  then show "\<lfloor>c / 10 + 1 / 2\<rfloor> \<le> 10" by simp
qed

text \<open>The bar of any finite level, in closed form.\<close>

lemma batteryBar_Fin:
  fixes r :: real
  defines "k \<equiv> \<lfloor>max 0 (min 100 r) / 10 + 1 / 2\<rfloor>"
  shows "batteryBar (Fin r) =
           Inr (''['' @ replicate (nat k) CHR ''#'' @ replicate (nat (10 - k)) CHR ''.'' @ '']'')"
proof -
  have b: "0 \<le> k" "k \<le> 10"
    unfolding k_def by (rule filled_bounds; simp)+
  have s: "js_sub (Fin 10) (Fin (of_int k)) = Fin (of_int (10 - k))" by simp
  have h: "js_repeat ''#'' (Fin (of_int k)) = Inr (replicate (nat k) CHR ''#'')"
    using b by (simp only: js_repeat_char)
  have t: "js_repeat ''.'' (Fin (of_int (10 - k))) = Inr (replicate (nat (10 - k)) CHR ''.'')"
    using b by (intro js_repeat_char) simp
  have f: "js_round (js_div (js_max (Fin 0) (js_min (Fin 100) (Fin r))) (Fin 10)) = Fin (of_int k)"
    by (simp add: k_def)
  show ?thesis
    unfolding batteryBar_def Let_def f s h t by simp
qed

text \<open>
  C1. For every battery level from 0 to 100, \<open>batteryBar\<close> returns (and does not throw)
  a bar of ten cells between the brackets, a run of filled cells followed by empty ones,
  twelve characters in all. Level 0 gives the empty bar and level 100 the full bar.
\<close>

theorem batteryBar_fixed_width:
  assumes "0 \<le> r" and "r \<le> 100"
  shows "(\<exists>k\<le>10. batteryBar (Fin r) =
            Inr (''['' @ replicate k CHR ''#'' @ replicate (10 - k) CHR ''.'' @ '']''))
       \<and> (\<exists>s. batteryBar (Fin r) = Inr s \<and> length s = 12)
       \<and> batteryBar (Fin 0) = Inr ''[..........]''
       \<and> batteryBar (Fin 100) = Inr ''[##########]''"
proof -
  define k where "k = \<lfloor>max 0 (min 100 r) / 10 + 1 / 2\<rfloor>"
  have b: "0 \<le> k" "k \<le> 10"
    unfolding k_def by (rule filled_bounds; simp)+
  have e: "batteryBar (Fin r) =
      Inr (''['' @ replicate (nat k) CHR ''#'' @ replicate (10 - nat k) CHR ''.'' @ '']'')"
    using batteryBar_Fin [of r] b unfolding k_def [symmetric] by (simp add: nat_diff_distrib)
  have 1: "\<exists>k\<le>10. batteryBar (Fin r) =
            Inr (''['' @ replicate k CHR ''#'' @ replicate (10 - k) CHR ''.'' @ '']'')"
    using e b by (intro exI [of _ "nat k"]) simp
  have 2: "\<exists>s. batteryBar (Fin r) = Inr s \<and> length s = 12"
    using e b by simp
  have 3: "batteryBar (Fin 0) = Inr ''[..........]''"
    using batteryBar_Fin [of 0] by (simp add: eval_nat_numeral)
  have 4: "batteryBar (Fin 100) = Inr ''[##########]''"
    using batteryBar_Fin [of 100] by (simp add: eval_nat_numeral)
  from 1 2 3 4 show ?thesis by blast
qed

theorem batteryBar_fixed_width_witness:
  "(0::real) \<le> 55 \<and> (55::real) \<le> 100
   \<and> (\<exists>s. batteryBar (Fin 55) = Inr s \<and> length s = 12)
   \<and> batteryBar (Fin 0) = Inr ''[..........]''"
  using batteryBar_fixed_width [of 55] by simp

text \<open>
  C2. For every number, NaN and the infinities included, \<open>batteryBar\<close> gives the bar of
  the clamped value \<open>Math.max(0, Math.min(100, level))\<close>. Every negative level renders
  as level 0 does and every level above 100 as level 100 does.
\<close>

theorem batteryBar_clamped:
  "batteryBar lvl = batteryBar (js_max (Fin 0) (js_min (Fin 100) lvl))
   \<and> (r < 0 \<longrightarrow> batteryBar (Fin r) = batteryBar (Fin 0))
   \<and> (100 < r \<longrightarrow> batteryBar (Fin r) = batteryBar (Fin 100))
   \<and> batteryBar NegInf = batteryBar (Fin 0)
   \<and> batteryBar PosInf = batteryBar (Fin 100)"
proof -
  have c: "batteryBar x = batteryBar (js_max (Fin 0) (js_min (Fin 100) x))" for x
    unfolding batteryBar_def clamp_idem ..
  have n: "batteryBar (Fin r) = batteryBar (Fin 0)" if "r < 0"
  proof -
    have "js_max (Fin 0) (js_min (Fin 100) (Fin r)) = Fin 0" using that by simp
    then show ?thesis by (subst c) (simp only:)
  qed
  have p: "batteryBar (Fin r) = batteryBar (Fin 100)" if "100 < r"
  proof -
    have "js_max (Fin 0) (js_min (Fin 100) (Fin r)) = Fin 100" using that by simp
    then show ?thesis by (subst c) (simp only:)
  qed
  have i: "batteryBar NegInf = batteryBar (Fin 0)" by (subst c) simp
  have j: "batteryBar PosInf = batteryBar (Fin 100)" by (subst c) simp
  from c [of lvl] n p i j show ?thesis by blast
qed

theorem batteryBar_clamped_witness:
  "(-5::real) < 0 \<and> batteryBar (Fin (-5)) = batteryBar (Fin 0)
   \<and> (100::real) < 150 \<and> batteryBar (Fin 150) = batteryBar (Fin 100)"
proof -
  have "batteryBar (Fin (-5)) = batteryBar (Fin 0)"
    using batteryBar_clamped [of NaN "-5"] by simp
  moreover have "batteryBar (Fin 150) = batteryBar (Fin 100)"
    using batteryBar_clamped [of NaN 150] by simp
  ultimately show ?thesis by simp
qed

section \<open>Properties of the font fitting\<close>

lemma js_split_nonempty: "js_split sep s \<noteq> []"
  by (induction s) (simp_all split: list.splits)

lemma longest_line_Fin:
  "\<exists>b\<ge>a. foldl (\<lambda>m line. js_max m (Fin (real (length line)))) (Fin a) ls = Fin b"
proof (induction ls arbitrary: a)
  case Nil
  show ?case by simp
next
  case (Cons l ls)
  obtain b where "b \<ge> max a (real (length l))"
    and "foldl (\<lambda>m line. js_max m (Fin (real (length line)))) (Fin (max a (real (length l)))) ls = Fin b"
    using Cons.IH [of "max a (real (length l))"] by blast
  then show ?case by (intro exI [of _ b]) simp
qed

lemma js_sub_Fin_not_NaN: "d \<noteq> NaN \<Longrightarrow> js_sub d (Fin k) \<noteq> NaN"
  by (cases d) simp_all

lemma js_max_Fin_not_NaN: "v \<noteq> NaN \<Longrightarrow> js_max (Fin c) v \<noteq> NaN"
  by (cases v) simp_all

lemma js_div_pos_not_NaN: "u \<noteq> NaN \<Longrightarrow> 0 < y \<Longrightarrow> js_div u (Fin y) \<noteq> NaN"
  by (cases u) simp_all

lemma js_min_not_NaN: "a \<noteq> NaN \<Longrightarrow> b \<noteq> NaN \<Longrightarrow> js_min a b \<noteq> NaN"
  by (cases a; cases b) simp_all

lemma clamp_range:
  "v \<noteq> NaN \<Longrightarrow> lo \<le> hi \<Longrightarrow>
     \<exists>x. js_max (Fin lo) (js_min (Fin hi) v) = Fin x \<and> lo \<le> x \<and> x \<le> hi"
  by (cases v) simp_all

text \<open>
  A NaN dimension is not clamped: \<open>Math.max\<close> and \<open>Math.min\<close> hand it on. The
  dimensions come from the layout (\<open>contentRect\<close>), which reports numbers.
\<close>

lemma asciiFontSizePx_NaN:
  "asciiFontSizePx ascii NaN deviceSectionHeight offsetHeight = NaN"
  by (simp add: asciiFontSizePx_def Let_def)

text \<open>
  C10. For every art string, every header height, and every width and height of the
  device section that is a number (finite or infinite, that is, not NaN), the font size
  is a finite number between 4.5 and 12: the longest line and the line count are at least
  1, so both fitted candidates are numbers, and the final clamp brings them into range.
\<close>

theorem asciiFontSizePx_range:
  assumes "deviceSectionWidth \<noteq> NaN" and "deviceSectionHeight \<noteq> NaN"
  shows "\<exists>px. asciiFontSizePx ascii deviceSectionWidth deviceSectionHeight offsetHeight = Fin px
              \<and> 45 / 10 \<le> px \<and> px \<le> 12"
proof -
  define lines where "lines = js_split (CHR 0x0A) ascii"
  obtain longest where l: "1 \<le> longest"
      "foldl (\<lambda>m line. js_max m (Fin (real (length line)))) (Fin 1) lines = Fin longest"
    using longest_line_Fin [of 1 lines] by blast
  have c: "0 < real (length lines)"
    using js_split_nonempty [of "CHR 0x0A" ascii] unfolding lines_def by simp
  define headerH where
    "headerH = (case offsetHeight of None \<Rightarrow> 35 | Some h \<Rightarrow> real_of_int h)"
  have hh: "(case offsetHeight of None \<Rightarrow> Fin 35 | Some h \<Rightarrow> Fin (of_int h)) = Fin headerH"
    unfolding headerH_def by (cases offsetHeight) simp_all
  define widthFitted where
    "widthFitted = js_div (js_max (Fin 120) (js_sub deviceSectionWidth (Fin 40)))
                     (js_mul (Fin longest) (Fin (62 / 100)))"
  define heightFitted where
    "heightFitted =
       js_div (js_max (Fin 60) (js_sub (js_sub deviceSectionHeight (Fin headerH)) (Fin 20)))
         (js_mul (Fin (real (length lines))) (Fin (95 / 100)))"
  have w: "widthFitted \<noteq> NaN"
  proof -
    have "0 < longest * (62 / 100)" using l(1) by simp
    moreover have "js_max (Fin 120) (js_sub deviceSectionWidth (Fin 40)) \<noteq> NaN"
      using assms(1) by (intro js_max_Fin_not_NaN js_sub_Fin_not_NaN)
    ultimately show ?thesis
      unfolding widthFitted_def js_mul.simps by (rule js_div_pos_not_NaN [rotated])
  qed
  have h: "heightFitted \<noteq> NaN"
  proof -
    have "0 < real (length lines) * (95 / 100)" using c by simp
    moreover have
      "js_max (Fin 60) (js_sub (js_sub deviceSectionHeight (Fin headerH)) (Fin 20)) \<noteq> NaN"
      using assms(2) by (intro js_max_Fin_not_NaN js_sub_Fin_not_NaN)
    ultimately show ?thesis
      unfolding heightFitted_def js_mul.simps by (rule js_div_pos_not_NaN [rotated])
  qed
  have e: "asciiFontSizePx ascii deviceSectionWidth deviceSectionHeight offsetHeight =
      js_max (Fin (45 / 10)) (js_min (Fin 12) (js_min widthFitted heightFitted))"
    unfolding asciiFontSizePx_def Let_def hh lines_def [symmetric] l(2)
      widthFitted_def heightFitted_def ..
  show ?thesis
    unfolding e using js_min_not_NaN [OF w h] by (intro clamp_range) simp_all
qed

theorem asciiFontSizePx_range_witness:
  "Fin 420 \<noteq> NaN \<and> Fin 260 \<noteq> NaN
   \<and> (\<exists>px. asciiFontSizePx [CHR ''a'', CHR 0x0A, CHR ''b'', CHR ''c''] (Fin 420) (Fin 260) None
              = Fin px \<and> 45 / 10 \<le> px \<and> px \<le> 12)"
  using asciiFontSizePx_range
    [of "Fin 420" "Fin 260" "[CHR ''a'', CHR 0x0A, CHR ''b'', CHR ''c'']" None]
  by simp

section \<open>Properties of the IPC handlers and the bridge\<close>

lemma backend_data_absent:
  "fs (resolveStatePath appData) = None \<Longrightarrow> backend_data json_parse appData fs = Inr JNull"
  by (simp add: backend_data_def existsSync_def)

lemma backend_data_unreadable:
  "fs (resolveStatePath appData) = Some Unreadable \<Longrightarrow>
     backend_data json_parse appData fs = Inr JNull"
  by (simp add: backend_data_def existsSync_def readFileSync_def try_catch_def)

lemma backend_data_file:
  "fs (resolveStatePath appData) = Some (File raw) \<Longrightarrow>
     backend_data json_parse appData fs =
       (case json_parse raw of None \<Rightarrow> Inr JNull | Some v \<Rightarrow> Inr v)"
  by (simp add: backend_data_def existsSync_def readFileSync_def try_catch_def
           split: option.splits)

lemma backend_data_total: "\<exists>v. backend_data json_parse appData fs = Inr v"
proof (cases "fs (resolveStatePath appData)")
  case None
  then show ?thesis by (simp add: backend_data_absent)
next
  case (Some n)
  then show ?thesis
    by (cases n) (auto simp: backend_data_file backend_data_unreadable split: option.splits)
qed

lemma bridge_call_data:
  "bridge_call inherited launches json_parse appData fs (preload world) ''data'' s =
     (backend_data json_parse appData fs, s)"
  by (simp add: bridge_call_def preload_def exposeInMainWorld_def ipc_invoke_def)

lemma bridge_call_status:
  "bridge_call inherited launches json_parse appData fs (preload world) ''status'' s =
     backend_status s"
  by (simp add: bridge_call_def preload_def exposeInMainWorld_def ipc_invoke_def)

lemma bridge_call_restart:
  "bridge_call inherited launches json_parse appData fs (preload world) ''restart'' s =
     backend_restart launches s"
  by (simp add: bridge_call_def preload_def exposeInMainWorld_def ipc_invoke_def)

lemma bridge_call_other:
  "m \<noteq> ''status'' \<Longrightarrow> m \<noteq> ''restart'' \<Longrightarrow> m \<noteq> ''data'' \<Longrightarrow>
     bridge_call inherited launches json_parse appData fs (preload world) m s =
       (case inherited m of None \<Rightarrow> Inl TypeError | Some r \<Rightarrow> r, s)"
  by (simp add: bridge_call_def preload_def exposeInMainWorld_def split: option.splits)

text \<open>
  C3. \<open>data()\<close>, called through the bridge, returns null when the state file does not
  exist, and returns the document held by the state file when the file exists with
  content that parses to that document; so once the state file has been replaced by the
  text of a document, \<open>data()\<close> returns that document whatever was there before. The
  call leaves the main process state unchanged.
\<close>

theorem data_returns_published_document:
  "(fs (resolveStatePath appData) = None \<longrightarrow>
      bridge_call inherited launches json_parse appData fs (preload world) ''data'' s
        = (Inr JNull, s))
   \<and> (fs (resolveStatePath appData) = Some (File raw) \<and> json_parse raw = Some doc \<longrightarrow>
      bridge_call inherited launches json_parse appData fs (preload world) ''data'' s
        = (Inr doc, s))
   \<and> (json_parse raw = Some doc \<longrightarrow>
      bridge_call inherited launches json_parse appData
        (fs(resolveStatePath appData \<mapsto> File raw)) (preload world) ''data'' s
        = (Inr doc, s))"
proof -
  have absent: "bridge_call inherited launches json_parse appData fs (preload world) ''data'' s
      = (Inr JNull, s)"
    if "fs (resolveStatePath appData) = None"
    using that by (simp add: bridge_call_data backend_data_absent)
  have held: "bridge_call inherited launches json_parse appData g (preload world) ''data'' s
      = (Inr doc, s)"
    if "g (resolveStatePath appData) = Some (File raw)" and "json_parse raw = Some doc" for g
    using that by (simp add: bridge_call_data backend_data_file)
  have replaced: "bridge_call inherited launches json_parse appData
        (fs(resolveStatePath appData \<mapsto> File raw)) (preload world) ''data'' s = (Inr doc, s)"
    if "json_parse raw = Some doc"
    using that by (intro held) simp_all
  from absent held [of fs] replaced show ?thesis by blast
qed

theorem data_returns_published_document_witness:
  "(Map.empty :: filesystem) (resolveStatePath [''AppData'']) = None
   \<and> bridge_call (\<lambda>n. None) True
        (\<lambda>t. if t = ''{}'' then Some (JObject []) else None) [''AppData'']
        Map.empty (preload Map.empty) ''data'' \<lparr>backendProcess = None, children = []\<rparr>
      = (Inr JNull, \<lparr>backendProcess = None, children = []\<rparr>)
   \<and> (Map.empty([''AppData'', ''winpods'', ''state.json''] \<mapsto> File ''{}''))
        (resolveStatePath [''AppData'']) = Some (File ''{}'')
   \<and> (if ''{}'' = ''{}'' then Some (JObject []) else None) = Some (JObject [])
   \<and> bridge_call (\<lambda>n. None) True
        (\<lambda>t. if t = ''{}'' then Some (JObject []) else None) [''AppData'']
        (Map.empty([''AppData'', ''winpods'', ''state.json''] \<mapsto> File ''{}''))
        (preload Map.empty) ''data'' \<lparr>backendProcess = None, children = []\<rparr>
      = (Inr (JObject []), \<lparr>backendProcess = None, children = []\<rparr>)
   \<and> bridge_call (\<lambda>n. None) True
        (\<lambda>t. if t = ''{}'' then Some (JObject []) else None) [''AppData'']
        ((Map.empty([''AppData'', ''winpods'', ''state.json''] \<mapsto> File ''old''))
           (resolveStatePath [''AppData''] \<mapsto> File ''{}''))
        (preload Map.empty) ''data'' \<lparr>backendProcess = None, children = []\<rparr>
      = (Inr (JObject []), \<lparr>backendProcess = None, children = []\<rparr>)"
  using data_returns_published_document
      [of Map.empty "[''AppData'']" "\<lambda>n. None" True
          "\<lambda>t. if t = ''{}'' then Some (JObject []) else None"
          Map.empty "\<lparr>backendProcess = None, children = []\<rparr>" "''{}''" "JObject []"]
    data_returns_published_document
      [of "(Map.empty([''AppData'', ''winpods'', ''state.json''] \<mapsto> File ''{}''))" "[''AppData'']"
          "\<lambda>n. None" True "\<lambda>t. if t = ''{}'' then Some (JObject []) else None"
          Map.empty "\<lparr>backendProcess = None, children = []\<rparr>" "''{}''" "JObject []"]
    data_returns_published_document
      [of "(Map.empty([''AppData'', ''winpods'', ''state.json''] \<mapsto> File ''old''))" "[''AppData'']"
          "\<lambda>n. None" True "\<lambda>t. if t = ''{}'' then Some (JObject []) else None"
          Map.empty "\<lparr>backendProcess = None, children = []\<rparr>" "''{}''" "JObject []"]
  by (simp add: resolveStatePath_def)

text \<open>
  C9. \<open>data()\<close> never throws: it always returns a value. When the state file exists but
  cannot be read, or its content does not parse, the value is null; a value other than
  null is returned only as the parse of the file's content.
\<close>

theorem data_never_throws:
  "(\<exists>v. backend_data json_parse appData fs = Inr v)
   \<and> (fs (resolveStatePath appData) = Some Unreadable \<longrightarrow>
        backend_data json_parse appData fs = Inr JNull)
   \<and> (fs (resolveStatePath appData) = Some (File raw) \<and> json_parse raw = None \<longrightarrow>
        backend_data json_parse appData fs = Inr JNull)
   \<and> (backend_data json_parse appData fs = Inr v \<and> v \<noteq> JNull \<longrightarrow>
        (\<exists>content. fs (resolveStatePath appData) = Some (File content)
                    \<and> json_parse content = Some v))"
proof -
  have only: "\<exists>content. fs (resolveStatePath appData) = Some (File content)
                    \<and> json_parse content = Some v"
    if r: "backend_data json_parse appData fs = Inr v" and n: "v \<noteq> JNull"
  proof (cases "fs (resolveStatePath appData)")
    case None
    with r n show ?thesis by (simp add: backend_data_absent)
  next
    case (Some nd)
    show ?thesis
    proof (cases nd)
      case (File content)
      with Some r n show ?thesis
        by (cases "json_parse content") (simp_all add: backend_data_file)
    next
      case Unreadable
      with Some r n show ?thesis by (simp add: backend_data_unreadable)
    qed
  qed
  show ?thesis
    using backend_data_total [of json_parse appData fs] only
    by (simp add: backend_data_unreadable backend_data_file)
qed

theorem data_never_throws_witness:
  "(Map.empty([''AppData'', ''winpods'', ''state.json''] \<mapsto> Unreadable)) (resolveStatePath [''AppData''])
      = Some Unreadable
   \<and> backend_data (\<lambda>t. if t = ''{}'' then Some (JObject []) else None) [''AppData'']
        (Map.empty([''AppData'', ''winpods'', ''state.json''] \<mapsto> Unreadable)) = Inr JNull
   \<and> (Map.empty([''AppData'', ''winpods'', ''state.json''] \<mapsto> File ''{''))
        (resolveStatePath [''AppData'']) = Some (File ''{'')
   \<and> (if ''{'' = ''{}'' then Some (JObject []) else None) = None
   \<and> backend_data (\<lambda>t. if t = ''{}'' then Some (JObject []) else None) [''AppData'']
        (Map.empty([''AppData'', ''winpods'', ''state.json''] \<mapsto> File ''{'')) = Inr JNull
   \<and> backend_data (\<lambda>t. if t = ''{}'' then Some (JObject []) else None) [''AppData'']
        (Map.empty([''AppData'', ''winpods'', ''state.json''] \<mapsto> File ''{}'')) = Inr (JObject [])
   \<and> JObject [] \<noteq> JNull
   \<and> (\<exists>content.
        (Map.empty([''AppData'', ''winpods'', ''state.json''] \<mapsto> File ''{}''))
          (resolveStatePath [''AppData'']) = Some (File content)
        \<and> (if content = ''{}'' then Some (JObject []) else None) = Some (JObject []))"
proof -
  have r: "backend_data (\<lambda>t. if t = ''{}'' then Some (JObject []) else None) [''AppData'']
        (Map.empty([''AppData'', ''winpods'', ''state.json''] \<mapsto> File ''{}'')) = Inr (JObject [])"
    by (simp add: backend_data_file resolveStatePath_def)
  have "\<exists>content.
        (Map.empty([''AppData'', ''winpods'', ''state.json''] \<mapsto> File ''{}''))
          (resolveStatePath [''AppData'']) = Some (File content)
        \<and> (if content = ''{}'' then Some (JObject []) else None) = Some (JObject [])"
    using r data_never_throws
      [of "\<lambda>t. if t = ''{}'' then Some (JObject []) else None" "[''AppData'']"
          "(Map.empty([''AppData'', ''winpods'', ''state.json''] \<mapsto> File ''{}''))" "''{}''"
          "JObject []"]
    by blast
  then show ?thesis
    using r data_never_throws
      [of "\<lambda>t. if t = ''{}'' then Some (JObject []) else None" "[''AppData'']"
          "(Map.empty([''AppData'', ''winpods'', ''state.json''] \<mapsto> Unreadable))" "''{}''" JNull]
    data_never_throws
      [of "\<lambda>t. if t = ''{}'' then Some (JObject []) else None" "[''AppData'']"
          "(Map.empty([''AppData'', ''winpods'', ''state.json''] \<mapsto> File ''{''))" "''{''" JNull]
    by (simp add: resolveStatePath_def)
qed

text \<open>
  C5. The preload script adds one global, \<open>backend\<close>, and the object it exposes has
  exactly the three methods \<open>status\<close>, \<open>restart\<close> and \<open>data\<close>, each of which reaches
  its handler in the main process. Nothing else is exposed: a call of any other name
  on it is answered by what every plain object inherits, or is a TypeError, and leaves
  the main process as it was.
\<close>

theorem bridge_exposes_three_operations:
  "dom (preload world) = insert ''backend'' (dom world)
   \<and> (\<exists>obj. preload world ''backend'' = Some obj
            \<and> map fst obj = [''status'', ''restart'', ''data''])
   \<and> bridge_call inherited launches json_parse appData fs (preload world) ''status'' s
       = backend_status s
   \<and> bridge_call inherited launches json_parse appData fs (preload world) ''restart'' s
       = backend_restart launches s
   \<and> bridge_call inherited launches json_parse appData fs (preload world) ''data'' s
       = (backend_data json_parse appData fs, s)
   \<and> (m \<notin> {''status'', ''restart'', ''data''} \<longrightarrow>
        bridge_call inherited launches json_parse appData fs (preload world) m s
          = (case inherited m of None \<Rightarrow> Inl TypeError | Some r \<Rightarrow> r, s))"
proof -
  have 1: "dom (preload world) = insert ''backend'' (dom world)"
    by (simp add: preload_def exposeInMainWorld_def)
  have 2: "\<exists>obj. preload world ''backend'' = Some obj
            \<and> map fst obj = [''status'', ''restart'', ''data'']"
    by (simp add: preload_def exposeInMainWorld_def)
  have 3: "bridge_call inherited launches json_parse appData fs (preload world) m s
          = (case inherited m of None \<Rightarrow> Inl TypeError | Some r \<Rightarrow> r, s)"
    if "m \<notin> {''status'', ''restart'', ''data''}"
    using that by (intro bridge_call_other) simp_all
  show ?thesis
    by (intro conjI impI 1 2 3 bridge_call_status bridge_call_restart bridge_call_data)
qed

theorem bridge_exposes_three_operations_witness:
  "dom (preload Map.empty) = {''backend''}
   \<and> ''toString'' \<notin> {''status'', ''restart'', ''data''}
   \<and> bridge_call
        (\<lambda>n. if n = ''toString'' then Some (Inr (JString ''[object Object]'')) else None)
        True (\<lambda>t. None) [] Map.empty (preload Map.empty) ''toString''
        \<lparr>backendProcess = Some 0, children = [Running]\<rparr>
      = (Inr (JString ''[object Object]''), \<lparr>backendProcess = Some 0, children = [Running]\<rparr>)
   \<and> ''kill'' \<notin> {''status'', ''restart'', ''data''}
   \<and> bridge_call
        (\<lambda>n. if n = ''toString'' then Some (Inr (JString ''[object Object]'')) else None)
        True (\<lambda>t. None) [] Map.empty (preload Map.empty) ''kill''
        \<lparr>backendProcess = Some 0, children = [Running]\<rparr>
      = (Inl TypeError, \<lparr>backendProcess = Some 0, children = [Running]\<rparr>)"
  using bridge_exposes_three_operations
      [of Map.empty
          "\<lambda>n. if n = ''toString'' then Some (Inr (JString ''[object Object]'')) else None"
          True "\<lambda>t. None" "[]" Map.empty "\<lparr>backendProcess = Some 0, children = [Running]\<rparr>"
          "''toString''"]
    bridge_exposes_three_operations
      [of Map.empty
          "\<lambda>n. if n = ''toString'' then Some (Inr (JString ''[object Object]'')) else None"
          True "\<lambda>t. None" "[]" Map.empty "\<lparr>backendProcess = Some 0, children = [Running]\<rparr>"
          "''kill''"]
  by simp

section \<open>Properties of restart\<close>

lemma stopBackend_handle: "backendProcess (stopBackend s) = None"
  by (simp add: stopBackend_def kill_def split: option.splits)

lemma stopBackend_length: "length (children (stopBackend s)) = length (children s)"
  by (simp add: stopBackend_def kill_def split: option.splits)

lemma startBackend_fresh:
  "backendProcess s = None \<Longrightarrow>
     startBackend launches s =
       s\<lparr>backendProcess := Some (length (children s)),
         children := children s @ [if launches then Running else Failed]\<rparr>"
  by (simp add: startBackend_def spawn_def)

lemma restart_state:
  "snd (backend_restart launches s) =
     (stopBackend s)\<lparr>backendProcess := Some (length (children (stopBackend s))),
                      children := children (stopBackend s)
                                    @ [if launches then Running else Failed]\<rparr>"
  by (simp add: backend_restart_def Let_def startBackend_fresh stopBackend_handle)

text \<open>
  What the handler does by itself: it returns with the handle set and replies
  \<open>running: true\<close>, and when no event comes between two runs the second kills the child
  of the first and spawns another.
\<close>

lemma restart_reply:
  "fst (backend_restart launches s) = Inr (JObject [(''running'', JBool True)])"
  by (simp add: backend_restart_def Let_def startBackend_fresh stopBackend_handle
        running_reply_def)

lemma running_children_restart:
  "running_children (snd (backend_restart True s)) = Suc (running_children (stopBackend s))"
  by (simp add: restart_state running_children_def)

lemma stop_after_restart:
  "running_children (stopBackend (snd (backend_restart True s)))
     = running_children (stopBackend s)"
  by (simp add: restart_state stopBackend_def [of "_\<lparr>backendProcess := _, children := _\<rparr>"]
        kill_def running_children_def)

lemma restart_twice_without_event:
  "running_children (snd (backend_restart True (snd (backend_restart True s))))
     = running_children (snd (backend_restart True s))"
  by (simp only: running_children_restart stop_after_restart)

text \<open>
  The reply says \<open>running: true\<close> also when the launch fails: the handle is set, and no
  child runs that did not run before.
\<close>

lemma restart_when_launch_fails:
  "fst (backend_restart False s) = Inr (JObject [(''running'', JBool True)])
   \<and> backendProcess (snd (backend_restart False s)) = Some (length (children s))
   \<and> children (snd (backend_restart False s)) ! length (children s) = Failed
   \<and> running_children (snd (backend_restart False s)) = running_children (stopBackend s)"
  by (simp add: restart_reply restart_state stopBackend_length running_children_def
        nth_append)

text \<open>
  The \<open>exit\<close> listener clears the handle whichever child exits. So the exit of a child
  that \<open>restart()\<close> killed, delivered after the handler has returned, clears the handle
  of its successor, which goes on running.
\<close>

lemma exit_of_earlier_child:
  assumes "p < length (children s)"
  shows "backendProcess (on_exit p (snd (backend_restart True s))) = None
       \<and> children (on_exit p (snd (backend_restart True s))) ! length (children s) = Running"
  using assms by (simp add: on_exit_def restart_state stopBackend_length nth_append)

text \<open>
  C4. \<open>restart()\<close> does not keep the handle set, and is not idempotent, once the
  exit of the child it killed is delivered. Take a main process whose backend, child 0,
  is running. \<open>restart()\<close> kills child 0, spawns child 1 and replies \<open>running: true\<close>.
  When the exit of child 0 is then delivered, its listener clears the handle:
  \<open>status()\<close> replies \<open>running: false\<close> while child 1 runs. The next \<open>restart()\<close>
  finds no handle, kills nothing and spawns child 2, so that two backends run, where
  two runs of \<open>restart()\<close> with no event between them leave one.
\<close>

theorem restart_then_exit_of_killed_child:
  "backend_restart True \<lparr>backendProcess = Some 0, children = [Running]\<rparr>
     = (Inr (JObject [(''running'', JBool True)]),
        \<lparr>backendProcess = Some 1, children = [Killed, Running]\<rparr>)
   \<and> on_exit 0 \<lparr>backendProcess = Some 1, children = [Killed, Running]\<rparr>
     = \<lparr>backendProcess = None, children = [Exited, Running]\<rparr>
   \<and> backend_status \<lparr>backendProcess = None, children = [Exited, Running]\<rparr>
     = (Inr (JObject [(''running'', JBool False)]),
        \<lparr>backendProcess = None, children = [Exited, Running]\<rparr>)
   \<and> backend_restart True \<lparr>backendProcess = None, children = [Exited, Running]\<rparr>
     = (Inr (JObject [(''running'', JBool True)]),
        \<lparr>backendProcess = Some 2, children = [Exited, Running, Running]\<rparr>)
   \<and> running_children \<lparr>backendProcess = Some 2, children = [Exited, Running, Running]\<rparr> = 2
   \<and> running_children
        (snd (backend_restart True
           (snd (backend_restart True \<lparr>backendProcess = Some 0, children = [Running]\<rparr>)))) = 1"
proof -
  have 1: "backend_restart True \<lparr>backendProcess = Some 0, children = [Running]\<rparr>
     = (Inr (JObject [(''running'', JBool True)]),
        \<lparr>backendProcess = Some 1, children = [Killed, Running]\<rparr>)"
    by (simp add: backend_restart_def startBackend_def stopBackend_def kill_def spawn_def
          running_reply_def)
  have 2: "on_exit 0 \<lparr>backendProcess = Some 1, children = [Killed, Running]\<rparr>
     = \<lparr>backendProcess = None, children = [Exited, Running]\<rparr>"
    by (simp add: on_exit_def)
  have 3: "backend_status \<lparr>backendProcess = None, children = [Exited, Running]\<rparr>
     = (Inr (JObject [(''running'', JBool False)]),
        \<lparr>backendProcess = None, children = [Exited, Running]\<rparr>)"
    by (simp add: backend_status_def running_reply_def)
  have 4: "backend_restart True \<lparr>backendProcess = None, children = [Exited, Running]\<rparr>
     = (Inr (JObject [(''running'', JBool True)]),
        \<lparr>backendProcess = Some 2, children = [Exited, Running, Running]\<rparr>)"
    by (simp add: backend_restart_def startBackend_def stopBackend_def spawn_def
          running_reply_def)
  have 5: "running_children \<lparr>backendProcess = Some 2, children = [Exited, Running, Running]\<rparr> = 2"
    by (simp add: running_children_def)
  have 6: "running_children
        (snd (backend_restart True
           (snd (backend_restart True \<lparr>backendProcess = Some 0, children = [Running]\<rparr>)))) = 1"
  proof -
    have "backend_restart True \<lparr>backendProcess = Some 1, children = [Killed, Running]\<rparr>
       = (Inr (JObject [(''running'', JBool True)]),
          \<lparr>backendProcess = Some 2, children = [Killed, Killed, Running]\<rparr>)"
      by (simp add: backend_restart_def startBackend_def stopBackend_def kill_def spawn_def
            running_reply_def)
    then show ?thesis by (simp add: 1 running_children_def)
  qed
  show ?thesis by (intro conjI 1 2 3 4 5 6)
qed

section \<open>Properties of the battery window\<close>

lemma batteryBar_total: "\<exists>bar. batteryBar lvl = Inr bar"
proof (cases lvl)
  case (Fin r)
  then show ?thesis using batteryBar_Fin [of r] by simp
qed (simp_all add: batteryBar_def js_repeat_def)

lemma batteryBar_zero: "batteryBar (Fin 0) = Inr ''[..........]''"
  using batteryBar_Fin [of 0] by (simp add: eval_nat_numeral)

lemma battery_text_total:
  "\<exists>bar. batteryBar (level b) = Inr bar
      \<and> battery_text num_to_string b =
          Inr (bar @ '' '' @ num_to_string (level b) @ ''%''
                 @ (if charging b then '' CHG'' else ''''))"
  using batteryBar_total [of "level b"] by (auto simp: battery_text_def)

text \<open>
  C6. For every properties object: when \<open>caseBattery\<close> is absent or null the window
  has the Left and Right rows only; when it holds a reading the window has a third row,
  Case, with that reading's bar, level and percent sign (and the charging mark). A
  reading with level 0 is such a reading: its row shows the empty bar.
\<close>

theorem case_battery_row:
  "(caseBattery p = Undefined \<or> caseBattery p = Null \<longrightarrow>
      (\<exists>left right. battery_window num_to_string (Some p)
                       = Inr [Row ''Left'' left, Row ''Right'' right]))
   \<and> (caseBattery p = Defined c \<longrightarrow>
      (\<exists>left right bar.
          batteryBar (level c) = Inr bar
          \<and> battery_window num_to_string (Some p)
              = Inr [Row ''Left'' left, Row ''Right'' right,
                     Row ''Case'' (bar @ '' '' @ num_to_string (level c) @ ''%''
                                     @ (if charging c then '' CHG'' else ''''))]))
   \<and> (caseBattery p = Defined c \<and> level c = Fin 0 \<longrightarrow>
      (\<exists>left right.
          battery_window num_to_string (Some p)
              = Inr [Row ''Left'' left, Row ''Right'' right,
                     Row ''Case'' (''[..........] '' @ num_to_string (Fin 0) @ ''%''
                                     @ (if charging c then '' CHG'' else ''''))]))"
proof -
  obtain lbar where l: "battery_text num_to_string (leftBattery p) =
      Inr (lbar @ '' '' @ num_to_string (level (leftBattery p)) @ ''%''
             @ (if charging (leftBattery p) then '' CHG'' else ''''))"
    using battery_text_total by blast
  obtain rbar where r: "battery_text num_to_string (rightBattery p) =
      Inr (rbar @ '' '' @ num_to_string (level (rightBattery p)) @ ''%''
             @ (if charging (rightBattery p) then '' CHG'' else ''''))"
    using battery_text_total by blast
  obtain cbar where c: "batteryBar (level c) = Inr cbar"
    "battery_text num_to_string c =
      Inr (cbar @ '' '' @ num_to_string (level c) @ ''%''
             @ (if charging c then '' CHG'' else ''''))"
    using battery_text_total by blast
  have z: "cbar = ''[..........]''" if "level c = Fin 0"
    using c(1) that by (simp add: batteryBar_zero)
  have 1: "\<exists>left right. battery_window num_to_string (Some p)
                       = Inr [Row ''Left'' left, Row ''Right'' right]"
    if "caseBattery p = Undefined \<or> caseBattery p = Null"
    using that by (auto simp: battery_window_def l r)
  have 2: "\<exists>left right bar.
          batteryBar (level c) = Inr bar
          \<and> battery_window num_to_string (Some p)
              = Inr [Row ''Left'' left, Row ''Right'' right,
                     Row ''Case'' (bar @ '' '' @ num_to_string (level c) @ ''%''
                                     @ (if charging c then '' CHG'' else ''''))]"
    if "caseBattery p = Defined c"
    using that c by (simp add: battery_window_def l r)
  have 3: "\<exists>left right.
          battery_window num_to_string (Some p)
              = Inr [Row ''Left'' left, Row ''Right'' right,
                     Row ''Case'' (''[..........] '' @ num_to_string (Fin 0) @ ''%''
                                     @ (if charging c then '' CHG'' else ''''))]"
    if "caseBattery p = Defined c" "level c = Fin 0"
    using that c z by (simp add: battery_window_def l r)
  from 1 2 3 show ?thesis by blast
qed

theorem case_battery_row_witness:
  "caseBattery \<lparr>model = ''AirPodsPro2'', leftBattery = \<lparr>level = Fin 80, charging = False\<rparr>,
       rightBattery = \<lparr>level = Fin 75, charging = False\<rparr>, caseBattery = Null,
       leftInEar = True, rightInEar = True\<rparr> = Null
   \<and> (\<exists>left right. battery_window (\<lambda>n. ''?'')
         (Some \<lparr>model = ''AirPodsPro2'', leftBattery = \<lparr>level = Fin 80, charging = False\<rparr>,
            rightBattery = \<lparr>level = Fin 75, charging = False\<rparr>, caseBattery = Null,
            leftInEar = True, rightInEar = True\<rparr>)
        = Inr [Row ''Left'' left, Row ''Right'' right])
   \<and> caseBattery \<lparr>model = ''AirPodsPro2'', leftBattery = \<lparr>level = Fin 80, charging = False\<rparr>,
       rightBattery = \<lparr>level = Fin 75, charging = False\<rparr>,
       caseBattery = Defined \<lparr>level = Fin 0, charging = True\<rparr>,
       leftInEar = True, rightInEar = True\<rparr> = Defined \<lparr>level = Fin 0, charging = True\<rparr>
   \<and> level \<lparr>level = Fin 0, charging = True\<rparr> = Fin 0
   \<and> (\<exists>left right. battery_window (\<lambda>n. ''?'')
         (Some \<lparr>model = ''AirPodsPro2'', leftBattery = \<lparr>level = Fin 80, charging = False\<rparr>,
            rightBattery = \<lparr>level = Fin 75, charging = False\<rparr>,
            caseBattery = Defined \<lparr>level = Fin 0, charging = True\<rparr>,
            leftInEar = True, rightInEar = True\<rparr>)
        = Inr [Row ''Left'' left, Row ''Right'' right, Row ''Case'' ''[..........] ?% CHG''])"
  using case_battery_row
      [of "\<lparr>model = ''AirPodsPro2'', leftBattery = \<lparr>level = Fin 80, charging = False\<rparr>,
            rightBattery = \<lparr>level = Fin 75, charging = False\<rparr>, caseBattery = Null,
            leftInEar = True, rightInEar = True\<rparr>" "\<lambda>n. ''?''" "\<lparr>level = Fin 0, charging = True\<rparr>"]
    case_battery_row
      [of "\<lparr>model = ''AirPodsPro2'', leftBattery = \<lparr>level = Fin 80, charging = False\<rparr>,
            rightBattery = \<lparr>level = Fin 75, charging = False\<rparr>,
            caseBattery = Defined \<lparr>level = Fin 0, charging = True\<rparr>,
            leftInEar = True, rightInEar = True\<rparr>" "\<lambda>n. ''?''" "\<lparr>level = Fin 0, charging = True\<rparr>"]
  by simp

section \<open>Properties of the low-battery alert\<close>

text \<open>
  C7. With threshold 20 and a margin of 0 or 1, updates whose lower bud level runs
  25, 18, 15, 22 give the flag sequence false, true, true, false, and the alert is
  emitted exactly once, at 18.
\<close>

theorem low_battery_alert_sequence:
  assumes "0 \<le> margin" and "margin < 2"
    and "map (\<lambda>u. min (fst u) (snd u)) updates = [25, 18, 15, 22]"
  shows "map fst (session_trace 20 margin False updates) = [False, True, True, False]
       \<and> map snd (session_trace 20 margin False updates) = [False, True, False, False]"
proof -
  from assms(3) obtain u1 u2 u3 u4 where us: "updates = [u1, u2, u3, u4]"
    and m: "min (fst u1) (snd u1) = 25" "min (fst u2) (snd u2) = 18"
      "min (fst u3) (snd u3) = 15" "min (fst u4) (snd u4) = 22"
    by (auto simp: map_eq_Cons_conv)
  have 1: "battery_update 20 margin False u1 = (False, False)"
    using m(1) by (simp add: battery_update_def)
  have 2: "battery_update 20 margin False u2 = (True, True)"
    using m(2) by (simp add: battery_update_def)
  have 3: "battery_update 20 margin True u3 = (True, False)"
    using m(3) assms(1) by (simp add: battery_update_def)
  have 4: "battery_update 20 margin True u4 = (False, False)"
    using m(4) assms(2) by (simp add: battery_update_def)
  show ?thesis
    unfolding us by (simp add: 1 2 3 4 Let_def)
qed

theorem low_battery_alert_sequence_witness:
  "(0::int) \<le> 1 \<and> (1::int) < 2
   \<and> map (\<lambda>u. min (fst u) (snd u)) [(25, 40), (18, 30), (15, 15), (22, 60 :: int)]
       = [25, 18, 15, 22 :: int]
   \<and> map fst (session_trace 20 1 False [(25, 40), (18, 30), (15, 15), (22, 60)])
       = [False, True, True, False]
   \<and> map snd (session_trace 20 1 False [(25, 40), (18, 30), (15, 15), (22, 60)])
       = [False, True, False, False]"
  using low_battery_alert_sequence [of 1 "[(25, 40), (18, 30), (15, 15), (22, 60)]"]
  by simp

end
